theory Spec2Isabelle
  imports Complex_Main "HOL-Library.Sublist" "HOL-Library.AList"
begin

section \<open>Strings\<close>

text \<open>
  A Python string is modelled as a \<open>string\<close>: the list of the bytes of the text in
  UTF-8 (one text occurs in another exactly when its bytes occur in the other's bytes).
  \<open>str.lower()\<close> belongs to Python, not to the program, and follows the Unicode tables:
  the functions that call it take it as the parameter \<open>str_lower\<close>. The function
  \<open>ascii_lower\<close> lowers the letters A to Z and leaves every other byte; it is what
  \<open>str.lower()\<close> does to ASCII text.
\<close>

definition ascii_lower_char :: "char \<Rightarrow> char" where
  "ascii_lower_char c =
     (let n = (of_char c :: nat) in if 65 \<le> n \<and> n \<le> 90 then char_of (n + 32) else c)"

definition ascii_lower :: "string \<Rightarrow> string" where
  "ascii_lower s = map ascii_lower_char s"

text \<open>Python's \<open>kw in text\<close> on strings: \<open>kw\<close> occurs in \<open>text\<close> as a contiguous run.\<close>

fun str_contains :: "string \<Rightarrow> string \<Rightarrow> bool" where
  "str_contains kw [] = (kw = [])"
| "str_contains kw (c # cs) = (prefix kw (c # cs) \<or> str_contains kw cs)"

text \<open>
  What the proofs about a title use of \<open>str.lower()\<close>: an ASCII word that occurs in a
  text after its letters A to Z are lowered also occurs in the lowered text. (Lowering
  maps the ASCII characters as \<open>ascii_lower\<close> does, in place, whatever it does to the
  other characters.)
\<close>

definition lowers_ascii :: "(string \<Rightarrow> string) \<Rightarrow> bool" where
  "lowers_ascii str_lower \<longleftrightarrow>
     (\<forall>w t. (\<forall>c \<in> set w. (of_char c :: nat) < 128) \<and> str_contains w (ascii_lower t)
        \<longrightarrow> str_contains w (str_lower t))"

text \<open>Python's \<open>x or ''\<close> on an optional string.\<close>

definition or_empty :: "string option \<Rightarrow> string" where
  "or_empty x = (case x of None \<Rightarrow> [] | Some s \<Rightarrow> s)"

section \<open>News scraper: keyword tagger and importance scorer\<close>

text \<open>\<open>NewsScraperConfig.TAG_KEYWORDS\<close>, in the dictionary's insertion order.\<close>

definition TAG_KEYWORDS :: "(string \<times> string list) list" where
  "TAG_KEYWORDS =
    [(''capacity'', [''capacity'', ''tight'', ''shortage'', ''availability'', ''surplus'']),
     (''rates'', [''rate'', ''pricing'', ''cost'', ''price'', ''tariff'']),
     (''diesel'', [''diesel'', ''fuel'', ''energy'', ''gas'']),
     (''ltl'', [''less-than-truckload'', ''ltl'', ''less than truckload'']),
     (''ftl'', [''full-truckload'', ''ftl'', ''full truckload'', ''truckload'']),
     (''contracts'', [''contract'', ''bid'', ''rfp'', ''agreement'']),
     (''economy'', [''economy'', ''gdp'', ''recession'', ''demand'', ''growth'']),
     (''regulation'', [''fmcsa'', ''regulation'', ''compliance'', ''dot'', ''law'']),
     (''technology'', [''technology'', ''digital'', ''automation'', ''software'']),
     (''labor'', [''driver'', ''labor'', ''wage'', ''employment'', ''turnover'']),
     (''merger'', [''merger'', ''acquisition'', ''bought'', ''consolidation'']),
     (''bankruptcy'', [''bankruptcy'', ''closure'', ''shutdown'', ''failed''])]"

text \<open>\<open>NewsScraperConfig.IMPORTANT_KEYWORDS\<close>.\<close>

definition IMPORTANT_KEYWORDS :: "string list" where
  "IMPORTANT_KEYWORDS =
    [''breaking'', ''major'', ''crisis'', ''shortage'', ''spike'',
     ''record'', ''unprecedented'', ''significant'', ''urgent'']"

text \<open>
  \<open>NewsScraper._auto_tag\<close>: the text is title, summary and full content joined by single
  blanks and lowercased; a tag is appended when any of its keywords occurs in the text.
\<close>

definition auto_tag ::
  "(string \<Rightarrow> string) \<Rightarrow> string \<Rightarrow> string option \<Rightarrow> string option \<Rightarrow> string list" where
  "auto_tag str_lower title summary full_content =
     (let text = str_lower (title @ '' '' @ or_empty summary @ '' '' @ or_empty full_content)
      in map fst (filter (\<lambda>(tag, keywords). list_ex (\<lambda>keyword. str_contains keyword text) keywords)
                    TAG_KEYWORDS))"

definition priority_tags :: "string list" where
  "priority_tags = [''capacity'', ''rates'', ''bankruptcy'', ''merger'']"

text \<open>\<open>NewsScraper._auto_rate_importance\<close>, with the score threaded through its three tests.\<close>

definition auto_rate_importance ::
  "(string \<Rightarrow> string) \<Rightarrow> string \<Rightarrow> string option \<Rightarrow> string list \<Rightarrow> int" where
  "auto_rate_importance str_lower title summary tags =
     (let score0 = 1;
          score1 = (if list_ex (\<lambda>tag. tag \<in> set tags) priority_tags then score0 + 1 else score0);
          title_lower = str_lower title;
          score2 = (if list_ex (\<lambda>keyword. str_contains keyword title_lower) IMPORTANT_KEYWORDS
                    then score1 + 1 else score1);
          score3 = (if length tags \<ge> 3 then score2 + 1 else score2)
      in min score3 5)"

section \<open>The store: tables and sessions\<close>

text \<open>
  A table is the list of its rows. \<open>SessionLocal\<close> is made with \<open>autoflush=False\<close>, so a
  session is modelled by three lists: \<open>committed\<close> (the table as it was when the session
  was opened, to which a rollback returns), \<open>persistent\<close> (the rows a query of this session
  sees: the committed rows with the in-memory changes made to them, and the rows that
  were flushed) and \<open>pending\<close> (rows passed to \<open>db.add\<close> and not flushed: no query sees
  them). A flush sends the pending rows to the database, which accepts or rejects the
  resulting table; the predicate \<open>accepts\<close> stands for the database's checks. Time stamps
  (\<open>created_at\<close>, \<open>updated_at\<close>) depend on the clock and are left out of the rows.
\<close>

datatype storage_error = IntegrityError

record 'r session =
  committed :: "'r list"
  persistent :: "'r list"
  pending :: "'r list"

definition SessionLocal :: "'r list \<Rightarrow> 'r session" where
  "SessionLocal table = \<lparr>committed = table, persistent = table, pending = []\<rparr>"

text \<open>\<open>db.query(Model).filter_by(...).first()\<close>: the first persistent row that matches.\<close>

definition query_first :: "('r \<Rightarrow> bool) \<Rightarrow> 'r session \<Rightarrow> 'r option" where
  "query_first p db = find p (persistent db)"

text \<open>Assignments to the attributes of the object that \<open>first()\<close> returned.\<close>

fun update_first :: "('r \<Rightarrow> bool) \<Rightarrow> ('r \<Rightarrow> 'r) \<Rightarrow> 'r list \<Rightarrow> 'r list" where
  "update_first p f [] = []"
| "update_first p f (r # rs) = (if p r then f r # rs else r # update_first p f rs)"

definition modify_first :: "('r \<Rightarrow> bool) \<Rightarrow> ('r \<Rightarrow> 'r) \<Rightarrow> 'r session \<Rightarrow> 'r session" where
  "modify_first p f db = db\<lparr>persistent := update_first p f (persistent db)\<rparr>"

definition add :: "'r \<Rightarrow> 'r session \<Rightarrow> 'r session" where
  "add r db = db\<lparr>pending := pending db @ [r]\<rparr>"

definition flush :: "('r list \<Rightarrow> bool) \<Rightarrow> 'r session \<Rightarrow> storage_error + 'r session" where
  "flush accepts db =
     (if accepts (persistent db @ pending db)
      then Inr (db\<lparr>persistent := persistent db @ pending db, pending := []\<rparr>)
      else Inl IntegrityError)"

definition commit :: "('r list \<Rightarrow> bool) \<Rightarrow> 'r session \<Rightarrow> storage_error + 'r session" where
  "commit accepts db =
     (case flush accepts db of
        Inl e \<Rightarrow> Inl e
      | Inr db' \<Rightarrow> Inr (db'\<lparr>committed := persistent db'\<rparr>))"

definition rollback :: "'r session \<Rightarrow> 'r session" where
  "rollback db = db\<lparr>persistent := committed db, pending := []\<rparr>"

text \<open>\<open>db.close()\<close> ends the session; what stays is the committed table.\<close>

definition close :: "'r session \<Rightarrow> 'r list" where
  "close db = committed db"

text \<open>Python's truth value of an optional string: \<open>None\<close> and \<open>''\<close> are false.\<close>

definition truthy_str :: "string option \<Rightarrow> bool" where
  "truthy_str x = (case x of None \<Rightarrow> False | Some s \<Rightarrow> s \<noteq> [])"

text \<open>Python's truth value of an optional float: \<open>None\<close> and \<open>0.0\<close> are false.\<close>

definition truthy_float :: "real option \<Rightarrow> bool" where
  "truthy_float x = (case x of None \<Rightarrow> False | Some v \<Rightarrow> v \<noteq> 0)"

section \<open>News scraper: storing articles\<close>

text \<open>
  A \<open>NewsArticle\<close> row, and also the dictionary \<open>article_data\<close> that \<open>parse\<close> builds with
  the same keys. Nullable columns are options; \<open>published_at\<close> is a time stamp.
\<close>

record news_article =
  article_id :: string
  article_source :: string
  article_title :: string
  article_url :: string
  article_published_at :: nat
  article_summary :: "string option"
  article_full_content :: "string option"
  article_tags :: "string option"
  article_importance :: "int option"
  article_notes :: "string option"
  article_read :: "bool option"

text \<open>The schema: \<open>id\<close> is the primary key and \<open>url\<close> is unique.\<close>

definition news_articles_ok :: "news_article list \<Rightarrow> bool" where
  "news_articles_ok rows = (distinct (map article_id rows) \<and> distinct (map article_url rows))"

text \<open>
  \<open>NewsScraper._generate_id\<close> on a feed entry, given by its optional \<open>link\<close> and \<open>title\<close>;
  \<open>md5_hexdigest\<close> stands for \<open>hashlib.md5(...).hexdigest()\<close>.
\<close>

definition generate_id :: "(string \<Rightarrow> string) \<Rightarrow> string option \<Rightarrow> string option \<Rightarrow> string" where
  "generate_id md5_hexdigest link entry_title =
     (let url = (case link of None \<Rightarrow> [] | Some l \<Rightarrow> l);
          title = (case entry_title of None \<Rightarrow> [] | Some t \<Rightarrow> t);
          unique_string = url @ title
      in md5_hexdigest unique_string)"

text \<open>The branch \<open>if existing:\<close> of \<open>NewsScraper.store\<close>, assignment by assignment.\<close>

definition update_existing_article :: "news_article \<Rightarrow> news_article \<Rightarrow> news_article" where
  "update_existing_article article_data existing =
     (let e1 = existing\<lparr>article_summary := article_summary article_data\<rparr>;
          e2 = e1\<lparr>article_full_content := article_full_content article_data\<rparr>;
          e3 = (if \<not> truthy_str (article_tags e2)
                then e2\<lparr>article_tags := article_tags article_data\<rparr> else e2);
          e4 = (if article_importance e3 = Some 1
                then e3\<lparr>article_importance := article_importance article_data\<rparr> else e3)
      in e4)"

text \<open>One pass of the loop of \<open>NewsScraper.store\<close>.\<close>

definition store_article :: "news_article session \<Rightarrow> news_article \<Rightarrow> news_article session" where
  "store_article db article_data =
     (case query_first (\<lambda>r. article_id r = article_id article_data) db of
        Some existing \<Rightarrow>
          modify_first (\<lambda>r. article_id r = article_id article_data)
            (update_existing_article article_data) db
      | None \<Rightarrow> add article_data db)"

text \<open>
  \<open>NewsScraper.store\<close>: the loop, then the commit; when the commit raises, the session is
  rolled back and the exception is raised again. The result is the table after the
  session is closed, and the exception if one was raised.
\<close>

definition news_store ::
  "(news_article list \<Rightarrow> bool) \<Rightarrow> news_article list \<Rightarrow> news_article list
     \<Rightarrow> news_article list \<times> storage_error option" where
  "news_store accepts table articles =
     (let db = SessionLocal table;
          db1 = foldl store_article db articles
      in case commit accepts db1 of
           Inr db2 \<Rightarrow> (close db2, None)
         | Inl e \<Rightarrow> (close (rollback db1), Some e))"

section \<open>Fact tables\<close>

text \<open>\<open>DailyMetric\<close>, keyed by its date.\<close>

record daily_metric =
  daily_date :: string
  daily_van_spot_index :: "real option"
  daily_reefer_spot_index :: "real option"
  daily_flatbed_spot_index :: "real option"
  daily_diesel_usd_per_gal :: "real option"
  daily_gas_price :: "real option"
  daily_oil_price :: "real option"
  daily_source :: "string option"
  daily_confidence :: "real option"

definition daily_metrics_ok :: "daily_metric list \<Rightarrow> bool" where
  "daily_metrics_ok rows = distinct (map daily_date rows)"

text \<open>\<open>MacroMetric\<close>, keyed by its month.\<close>

record macro_metric =
  macro_month :: string
  macro_cass_shipments_index :: "real option"
  macro_cass_expenditures_index :: "real option"
  macro_ata_tonnage_index :: "real option"
  macro_ftr_trucking_conditions_index :: "real option"
  macro_industrial_production :: "real option"
  macro_ism_pmi :: "real option"
  macro_retail_sales :: "real option"
  macro_consumer_sentiment :: "real option"
  macro_truck_transport_index :: "real option"
  macro_source :: "string option"
  macro_confidence :: "real option"

definition macro_metrics_ok :: "macro_metric list \<Rightarrow> bool" where
  "macro_metrics_ok rows = distinct (map macro_month rows)"

text \<open>
  \<open>DieselPrice\<close>. Its key is a number that the database assigns; it is left out, and the
  schema puts no other uniqueness on the rows.
\<close>

record diesel_price =
  diesel_date :: string
  diesel_region_code :: string
  diesel_region_name :: "string option"
  diesel_price_value :: real
  diesel_series_description :: "string option"
  diesel_source :: "string option"

definition diesel_prices_ok :: "diesel_price list \<Rightarrow> bool" where
  "diesel_prices_ok rows = True"



definition rollback2 :: "'a session \<times> 'b session \<Rightarrow> 'a session \<times> 'b session" where
  "rollback2 db = (rollback (fst db), rollback (snd db))"

definition close2 :: "'a session \<times> 'b session \<Rightarrow> 'a list \<times> 'b list" where
  "close2 db = (close (fst db), close (snd db))"


text \<open>\<open>not source or name not in source\<close>, on the nullable column \<open>source\<close>.\<close>

definition source_lacks :: "string \<Rightarrow> string option \<Rightarrow> bool" where
  "source_lacks name src = (\<not> truthy_str src \<or> \<not> str_contains name (or_empty src))"

section \<open>EIA diesel scraper: storing prices\<close>

text \<open>
  The dictionary \<open>price_data\<close>: \<open>date\<close> and \<open>diesel_price\<close> are read with \<open>[...]\<close>, the
  other keys with \<open>.get\<close> and a default.
\<close>

record price_data =
  pd_date :: string
  pd_diesel_price :: real
  pd_region_code :: "string option"
  pd_region_name :: "string option"
  pd_series_description :: "string option"

definition get_default :: "'a option \<Rightarrow> 'a \<Rightarrow> 'a" where
  "get_default x d = (case x of None \<Rightarrow> d | Some v \<Rightarrow> v)"

text \<open>The branch \<open>if existing_daily:\<close> of \<open>EIADieselScraper.store\<close>.\<close>

definition eia_update_daily :: "real \<Rightarrow> daily_metric \<Rightarrow> daily_metric" where
  "eia_update_daily price existing_daily =
     (let e1 = existing_daily\<lparr>daily_diesel_usd_per_gal := Some price\<rparr>
      in if source_lacks ''EIA'' (daily_source e1) then e1\<lparr>daily_source := Some ''EIA''\<rparr> else e1)"

text \<open>One pass of the loop of \<open>EIADieselScraper.store\<close>.\<close>

definition eia_store_price ::
  "diesel_price session \<times> daily_metric session \<Rightarrow> price_data
     \<Rightarrow> diesel_price session \<times> daily_metric session" where
  "eia_store_price db price_data =
     (let date = pd_date price_data;
          price = pd_diesel_price price_data;
          region_code = get_default (pd_region_code price_data) ''UNKNOWN'';
          region_name = get_default (pd_region_name price_data) ''Unknown'';
          series_desc = get_default (pd_series_description price_data) [];
          is_region = (\<lambda>r. diesel_date r = date \<and> diesel_region_code r = region_code);
          regional =
            (case query_first is_region (fst db) of
               Some existing_regional \<Rightarrow>
                 modify_first is_region
                   (\<lambda>e. e\<lparr>diesel_price_value := price, diesel_region_name := Some region_name,
                           diesel_series_description := Some series_desc\<rparr>) (fst db)
             | None \<Rightarrow>
                 add \<lparr>diesel_date = date, diesel_region_code = region_code,
                      diesel_region_name = Some region_name, diesel_price_value = price,
                      diesel_series_description = Some series_desc,
                      diesel_source = Some ''EIA''\<rparr> (fst db));
          daily =
            (if region_code = ''NUS'' then
               (case query_first (\<lambda>r. daily_date r = date) (snd db) of
                  Some existing_daily \<Rightarrow>
                    modify_first (\<lambda>r. daily_date r = date) (eia_update_daily price) (snd db)
                | None \<Rightarrow>
                    add \<lparr>daily_date = date, daily_van_spot_index = None,
                         daily_reefer_spot_index = None, daily_flatbed_spot_index = None,
                         daily_diesel_usd_per_gal = Some price, daily_gas_price = None,
                         daily_oil_price = None, daily_source = Some ''EIA'',
                         daily_confidence = Some 1\<rparr> (snd db))
             else snd db)
      in (regional, daily))"


section \<open>FRED scraper: storing observations\<close>











section \<open>Cass and ATA scrapers: storing index records\<close>

text \<open>
  The dictionaries that \<open>CassScraper.parse\<close> and \<open>ATAScraper.parse\<close> build. The key
  \<open>_note\<close> is present only in the placeholder that asks for a manual review.
\<close>

record cass_metric =
  cass_month :: string
  cass_shipments_index :: "real option"
  cass_expenditures_index :: "real option"
  cass_note :: "string option"

record ata_metric =
  ata_month :: string
  ata_tonnage_index :: "real option"
  ata_note :: "string option"

text \<open>The branch \<open>if existing:\<close> of \<open>CassScraper.store\<close>.\<close>

definition cass_update :: "cass_metric \<Rightarrow> macro_metric \<Rightarrow> macro_metric" where
  "cass_update metric_data existing =
     (let e1 = (if truthy_float (cass_shipments_index metric_data)
                then existing\<lparr>macro_cass_shipments_index := cass_shipments_index metric_data\<rparr>
                else existing);
          e2 = (if truthy_float (cass_expenditures_index metric_data)
                then e1\<lparr>macro_cass_expenditures_index := cass_expenditures_index metric_data\<rparr>
                else e1);
          e3 = e2\<lparr>macro_source := Some ''Cass''\<rparr>
      in e3\<lparr>macro_confidence := Some 1\<rparr>)"

text \<open>One pass of the loop of \<open>CassScraper.store\<close>.\<close>

definition cass_store_metric :: "macro_metric session \<Rightarrow> cass_metric \<Rightarrow> macro_metric session" where
  "cass_store_metric db metric_data =
     (if truthy_str (cass_note metric_data) then db
      else (case query_first (\<lambda>r. macro_month r = cass_month metric_data) db of
              Some existing \<Rightarrow>
                modify_first (\<lambda>r. macro_month r = cass_month metric_data)
                  (cass_update metric_data) db
            | None \<Rightarrow>
                add \<lparr>macro_month = cass_month metric_data,
                     macro_cass_shipments_index = cass_shipments_index metric_data,
                     macro_cass_expenditures_index = cass_expenditures_index metric_data,
                     macro_ata_tonnage_index = None, macro_ftr_trucking_conditions_index = None,
                     macro_industrial_production = None, macro_ism_pmi = None,
                     macro_retail_sales = None, macro_consumer_sentiment = None,
                     macro_truck_transport_index = None, macro_source = Some ''Cass'',
                     macro_confidence = Some 1\<rparr> db))"

definition cass_store ::
  "(macro_metric list \<Rightarrow> bool) \<Rightarrow> macro_metric list \<Rightarrow> cass_metric list
     \<Rightarrow> macro_metric list \<times> storage_error option" where
  "cass_store accepts table metrics =
     (let db = SessionLocal table;
          db1 = foldl cass_store_metric db metrics
      in case commit accepts db1 of
           Inr db2 \<Rightarrow> (close db2, None)
         | Inl e \<Rightarrow> (close (rollback db1), Some e))"

text \<open>The branch \<open>if existing:\<close> of \<open>ATAScraper.store\<close>.\<close>

definition ata_update :: "ata_metric \<Rightarrow> macro_metric \<Rightarrow> macro_metric" where
  "ata_update metric_data existing =
     (let e1 = (if truthy_float (ata_tonnage_index metric_data)
                then existing\<lparr>macro_ata_tonnage_index := ata_tonnage_index metric_data\<rparr>
                else existing);
          e2 = e1\<lparr>macro_source := Some ''ATA''\<rparr>
      in e2\<lparr>macro_confidence := Some 1\<rparr>)"

text \<open>One pass of the loop of \<open>ATAScraper.store\<close>.\<close>

definition ata_store_metric :: "macro_metric session \<Rightarrow> ata_metric \<Rightarrow> macro_metric session" where
  "ata_store_metric db metric_data =
     (if truthy_str (ata_note metric_data) then db
      else (case query_first (\<lambda>r. macro_month r = ata_month metric_data) db of
              Some existing \<Rightarrow>
                modify_first (\<lambda>r. macro_month r = ata_month metric_data)
                  (ata_update metric_data) db
            | None \<Rightarrow>
                add \<lparr>macro_month = ata_month metric_data,
                     macro_cass_shipments_index = None, macro_cass_expenditures_index = None,
                     macro_ata_tonnage_index = ata_tonnage_index metric_data,
                     macro_ftr_trucking_conditions_index = None,
                     macro_industrial_production = None, macro_ism_pmi = None,
                     macro_retail_sales = None, macro_consumer_sentiment = None,
                     macro_truck_transport_index = None, macro_source = Some ''ATA'',
                     macro_confidence = Some 1\<rparr> db))"

definition ata_store ::
  "(macro_metric list \<Rightarrow> bool) \<Rightarrow> macro_metric list \<Rightarrow> ata_metric list
     \<Rightarrow> macro_metric list \<times> storage_error option" where
  "ata_store accepts table metrics =
     (let db = SessionLocal table;
          db1 = foldl ata_store_metric db metrics
      in case commit accepts db1 of
           Inr db2 \<Rightarrow> (close db2, None)
         | Inl e \<Rightarrow> (close (rollback db1), Some e))"

section \<open>BTS and USASpending scrapers: storing lanes and rates\<close>

text \<open>
  The rows of \<open>lanes\<close> and \<open>rates\<close>. The \<open>id\<close> of a lane is given by the database when
  the row is flushed and is \<open>None\<close> before; the \<open>id\<close> of a rate is never read and is left
  out.
\<close>

record lane =
  lane_id :: "nat option"
  lane_origin :: string
  lane_destination :: string
  lane_equipment_type :: string
  lane_distance_miles :: "real option"
  lane_volume_rank :: "int option"







text \<open>The dictionaries that \<open>BTSScraper.parse\<close> builds, with the keys that \<open>store\<close> reads.\<close>

record lane_data =
  data_origin :: string
  data_destination :: string
  data_equipment_type :: string
  data_distance_miles :: real

text \<open>
  One pass of the loop of \<open>BTSScraper.store\<close>; the state is the session with the two
  counters \<open>stored_count\<close> and \<open>updated_count\<close>.
\<close>

definition bts_store_lane ::
  "lane session \<times> int \<times> int \<Rightarrow> lane_data \<Rightarrow> lane session \<times> int \<times> int" where
  "bts_store_lane st lane_data =
     (case st of (db, stored_count, updated_count) \<Rightarrow>
        (let same = (\<lambda>l. lane_origin l = data_origin lane_data \<and>
                          lane_destination l = data_destination lane_data \<and>
                          lane_equipment_type l = data_equipment_type lane_data)
         in case query_first same db of
              Some existing \<Rightarrow>
                (modify_first same
                   (\<lambda>l. l\<lparr>lane_volume_rank := Some (stored_count + updated_count + 1),
                           lane_distance_miles := Some (data_distance_miles lane_data)\<rparr>) db,
                 stored_count, updated_count + 1)
            | None \<Rightarrow>
                (add \<lparr>lane_id = None, lane_origin = data_origin lane_data,
                      lane_destination = data_destination lane_data,
                      lane_equipment_type = data_equipment_type lane_data,
                      lane_distance_miles = Some (data_distance_miles lane_data),
                      lane_volume_rank = Some (stored_count + updated_count + 1)\<rparr> db,
                 stored_count + 1, updated_count)))"







section \<open>Base scraper: the retry loop\<close>






section \<open>The orchestrator\<close>






section \<open>The HTTP wrapper\<close>












section \<open>Paginated fetches\<close>

text \<open>
  What the EIA server does with the request for one offset: the request, the status
  check or the decoding raises; the body lacks \<open>response\<close> or \<open>data\<close>; or it holds a batch
  of records. The offset grows with every request, so a function of the offset covers a
  server whose answers change from request to request.
\<close>

datatype 'a eia_reply = Eia_raises | Eia_unexpected | Eia_batch "'a list"

text \<open>
  What \<open>_fetch_via_api\<close> returns: the accumulated records, or whatever the fall-back
  \<open>_fetch_via_web_scraping\<close> returns (not modelled further).
\<close>

datatype 'a eia_fetched = Api_data "'a list" | Web_scraping

text \<open>The loop \<open>while True\<close> of \<open>EIADieselScraper._fetch_via_api\<close>, with \<open>length = 5000\<close>.\<close>

function eia_fetch_loop :: "(nat \<Rightarrow> 'a eia_reply) \<Rightarrow> 'a list \<Rightarrow> nat \<Rightarrow> 'a eia_fetched" where
  "eia_fetch_loop server all_data offset =
     (case server offset of
        Eia_raises \<Rightarrow> Web_scraping
      | Eia_unexpected \<Rightarrow> Web_scraping
      | Eia_batch batch \<Rightarrow>
          if batch = [] then Api_data all_data
          else if length batch < 5000 then Api_data (all_data @ batch)
          else if length (all_data @ batch) \<ge> 100000 then Api_data (all_data @ batch)
          else eia_fetch_loop server (all_data @ batch) (offset + 5000))"
  by pat_completeness auto
termination
  by (relation "measure (\<lambda>(server, all_data, offset). 100000 - length all_data)") auto

definition fetch_via_api :: "(nat \<Rightarrow> 'a eia_reply) \<Rightarrow> 'a eia_fetched" where
  "fetch_via_api server = eia_fetch_loop server [] 0"

text \<open>
  What the USASpending server does with the request for one page of one PSC code: the
  request, the status check or the decoding raises; or the body is decoded, with the
  list under \<open>results\<close> if the key is there.
\<close>

datatype 'a usa_reply = Usa_raises | Usa_body "'a list option"

text \<open>
  The loop \<open>while psc_total < max_contracts_per_psc\<close> of \<open>USASpendingScraper.fetch\<close> for
  one PSC code, with \<open>limit_per_page = 100\<close> and \<open>max_contracts_per_psc = 2000\<close>. An
  exception ends the work on this code; the awards collected so far stay in \<open>all_awards\<close>.
\<close>

function usa_fetch_loop :: "(nat \<Rightarrow> 'a usa_reply) \<Rightarrow> 'a list \<Rightarrow> nat \<Rightarrow> nat \<Rightarrow> 'a list" where
  "usa_fetch_loop server all_awards page psc_total =
     (if psc_total < 2000 then
        (case server page of
           Usa_raises \<Rightarrow> all_awards
         | Usa_body None \<Rightarrow> all_awards
         | Usa_body (Some awards) \<Rightarrow>
             if length awards > 0 then
               (if length awards < 100 then all_awards @ awards
                else usa_fetch_loop server (all_awards @ awards) (page + 1)
                       (psc_total + length awards))
             else all_awards)
      else all_awards)"
  by pat_completeness auto
termination
  by (relation "measure (\<lambda>(server, all_awards, page, psc_total). 2000 - psc_total)") auto

text \<open>\<open>USASpendingScraper.fetch\<close>: the codes \<open>FREIGHT_PSC_CODES\<close> one after the other.\<close>

definition FREIGHT_PSC_CODES :: "string list" where
  "FREIGHT_PSC_CODES = [''V1'', ''V2'']"

definition usa_fetch :: "(string \<Rightarrow> nat \<Rightarrow> 'a usa_reply) \<Rightarrow> 'a list" where
  "usa_fetch server =
     foldl (\<lambda>all_awards psc_code. usa_fetch_loop (server psc_code) all_awards 1 0) []
       FREIGHT_PSC_CODES"

section \<open>Example inputs\<close>



text \<open>
  A stored article that a user has rated, tagged and annotated, and the dictionary that
  \<open>parse\<close> builds when the same feed entry is ingested again.
\<close>

definition rated_article :: news_article where
  "rated_article =
     \<lparr>article_id = ''9e107d9d372bb6826bd81d3542a419d6'', article_source = ''JOC'',
      article_title = ''Capacity Shortage hits trucking'',
      article_url = ''https://www.joc.com/capacity-shortage'', article_published_at = 1700000000,
      article_summary = Some ''Carriers warn'', article_full_content = None,
      article_tags = Some ''strategic,capacity'', article_importance = Some 5,
      article_notes = Some ''call the carrier'', article_read = Some True\<rparr>"

definition parsed_article :: news_article where
  "parsed_article =
     \<lparr>article_id = ''9e107d9d372bb6826bd81d3542a419d6'', article_source = ''JOC'',
      article_title = ''Capacity Shortage hits trucking'',
      article_url = ''https://www.joc.com/capacity-shortage'', article_published_at = 1700000000,
      article_summary = Some ''Carriers warn of tight capacity'', article_full_content = None,
      article_tags = Some ''capacity'', article_importance = Some 3,
      article_notes = None, article_read = Some False\<rparr>"

text \<open>The placeholders that \<open>CassScraper.parse\<close> and \<open>ATAScraper.parse\<close> emit.\<close>

definition cass_placeholder :: cass_metric where
  "cass_placeholder =
     \<lparr>cass_month = ''2025-01'', cass_shipments_index = None, cass_expenditures_index = None,
      cass_note = Some ''Manual parsing required - check Cass website''\<rparr>"

definition ata_placeholder :: ata_metric where
  "ata_placeholder =
     \<lparr>ata_month = ''2025-01'', ata_tonnage_index = None,
      ata_note = Some ''Manual parsing required - check ATA website''\<rparr>"









section \<open>Relations used in the proofs\<close>

text \<open>
  \<open>kept r r'\<close>: the row \<open>r'\<close> is the row \<open>r\<close> after some passes of the store loop, with
  the user's annotations of \<open>r\<close> kept.
\<close>

definition kept :: "news_article \<Rightarrow> news_article \<Rightarrow> bool" where
  "kept r r' \<longleftrightarrow>
     article_id r' = article_id r \<and>
     (article_importance r \<noteq> Some 1 \<longrightarrow> article_importance r' = article_importance r) \<and>
     (truthy_str (article_tags r) \<longrightarrow> article_tags r' = article_tags r) \<and>
     article_notes r' = article_notes r"

section \<open>Properties of the paginated fetches\<close>

lemma eia_full_pages:
  assumes full: "\<And>off. \<exists>b. server off = Eia_batch b \<and> length b = 5000"
  shows "length all_data + 5000 * Suc n = 100000 \<Longrightarrow>
         \<exists>d. eia_fetch_loop server all_data offset = Api_data d \<and> length d = 100000"
proof (induction n arbitrary: all_data offset)
  case 0
  obtain b where b: "server offset = Eia_batch b" "length b = 5000" using full by blast
  then have "b \<noteq> []" by auto
  then show ?case using 0 b by (subst eia_fetch_loop.simps) simp
next
  case (Suc n)
  obtain b where b: "server offset = Eia_batch b" "length b = 5000" using full by blast
  then have ne: "b \<noteq> []" by auto
  have "length (all_data @ b) + 5000 * Suc n = 100000" using Suc.prems b by simp
  from Suc.IH[OF this, of "offset + 5000"]
  obtain d where "eia_fetch_loop server (all_data @ b) (offset + 5000) = Api_data d" "length d = 100000"
    by blast
  moreover have "eia_fetch_loop server all_data offset = eia_fetch_loop server (all_data @ b) (offset + 5000)"
    using Suc.prems b ne by (subst eia_fetch_loop.simps) simp
  ultimately show ?case by simp
qed

lemma eia_short_page:
  assumes "server offset = Eia_batch b" and "length b < 5000"
  shows "eia_fetch_loop server all_data offset = Api_data (all_data @ b)"
  using assms by (subst eia_fetch_loop.simps) simp

lemma eia_full_then_short:
  assumes short: "server (offset + 5000 * k) = Eia_batch b" "length b < 5000"
  shows "(\<And>i. i < k \<Longrightarrow> \<exists>c. server (offset + 5000 * i) = Eia_batch c \<and> length c = 5000) \<Longrightarrow>
         length all_data + 5000 * k < 100000 \<Longrightarrow>
         \<exists>d. eia_fetch_loop server all_data offset = Api_data d \<and> length d = length all_data + 5000 * k + length b"
  using short
proof (induction k arbitrary: all_data offset)
  case 0
  then show ?case using eia_short_page[of server offset b all_data] by simp
next
  case (Suc k)
  obtain c where c: "server offset = Eia_batch c" "length c = 5000"
    using Suc.prems(1)[of 0] by auto
  then have ne: "c \<noteq> []" by auto
  have step: "eia_fetch_loop server all_data offset = eia_fetch_loop server (all_data @ c) (offset + 5000)"
    using Suc.prems(2) c ne by (subst eia_fetch_loop.simps) simp
  have full': "\<And>i. i < k \<Longrightarrow> \<exists>c. server (offset + 5000 + 5000 * i) = Eia_batch c \<and> length c = 5000"
  proof -
    fix i assume "i < k"
    then have "Suc i < Suc k" by simp
    from Suc.prems(1)[OF this] show "\<exists>c. server (offset + 5000 + 5000 * i) = Eia_batch c \<and> length c = 5000"
      by (simp add: add.assoc)
  qed
  have short': "server (offset + 5000 + 5000 * k) = Eia_batch b"
    using Suc.prems(3) by (simp add: add.assoc)
  have "length (all_data @ c) + 5000 * k < 100000" using Suc.prems(2) c by simp
  from Suc.IH[OF full' this short' Suc.prems(4)]
  obtain d where "eia_fetch_loop server (all_data @ c) (offset + 5000) = Api_data d"
    "length d = length (all_data @ c) + 5000 * k + length b" by blast
  then show ?case using step c by simp
qed

lemma usa_full_pages:
  assumes full: "\<And>page. \<exists>a. server page = Usa_body (Some a) \<and> length a = 100"
  shows "psc_total + 100 * n = 2000 \<Longrightarrow>
         length (usa_fetch_loop server all_awards page psc_total) = length all_awards + 100 * n"
proof (induction n arbitrary: all_awards page psc_total)
  case 0
  then show ?case by (subst usa_fetch_loop.simps) simp
next
  case (Suc n)
  obtain a where a: "server page = Usa_body (Some a)" "length a = 100" using full by blast
  have "psc_total + length a + 100 * n = 2000" using Suc.prems a by simp
  from Suc.IH[OF this, of "all_awards @ a" "page + 1"]
  have "length (usa_fetch_loop server (all_awards @ a) (page + 1) (psc_total + length a))
          = length (all_awards @ a) + 100 * n" .
  moreover have "usa_fetch_loop server all_awards page psc_total =
      usa_fetch_loop server (all_awards @ a) (page + 1) (psc_total + length a)"
    using Suc.prems a by (subst usa_fetch_loop.simps) simp
  ultimately show ?case using a by simp
qed

lemma usa_short_page:
  assumes "psc_total < 2000" "server page = Usa_body (Some a)" "length a < 100"
  shows "usa_fetch_loop server all_awards page psc_total = all_awards @ a"
  using assms by (subst usa_fetch_loop.simps) auto

lemma usa_fetch_full:
  assumes full: "\<And>code page. \<exists>a. server code page = Usa_body (Some a) \<and> length a = 100"
  shows "length (usa_fetch server) = 4000"
proof -
  have "\<And>code all. length (usa_fetch_loop (server code) all 1 0) = length all + 100 * 20"
    by (rule usa_full_pages) (use full in auto)
  then show ?thesis by (simp add: usa_fetch_def FREIGHT_PSC_CODES_def)
qed

lemma usa_full_then_short:
  assumes short: "server (page + k) = Usa_body (Some a)" "length a < 100"
  shows "(\<And>i. i < k \<Longrightarrow> \<exists>c. server (page + i) = Usa_body (Some c) \<and> length c = 100) \<Longrightarrow>
         psc_total + 100 * k < 2000 \<Longrightarrow>
         length (usa_fetch_loop server all_awards page psc_total) = length all_awards + 100 * k + length a"
  using short
proof (induction k arbitrary: all_awards page psc_total)
  case 0
  then show ?case using usa_short_page[of psc_total server page a all_awards] by simp
next
  case (Suc k)
  obtain c where c: "server page = Usa_body (Some c)" "length c = 100"
    using Suc.prems(1)[of 0] by auto
  have step: "usa_fetch_loop server all_awards page psc_total =
      usa_fetch_loop server (all_awards @ c) (page + 1) (psc_total + length c)"
    using Suc.prems(2) c by (subst usa_fetch_loop.simps) simp
  have full': "\<And>i. i < k \<Longrightarrow> \<exists>c. server (page + 1 + i) = Usa_body (Some c) \<and> length c = 100"
  proof -
    fix i assume "i < k"
    then have "Suc i < Suc k" by simp
    from Suc.prems(1)[OF this] show "\<exists>c. server (page + 1 + i) = Usa_body (Some c) \<and> length c = 100"
      by simp
  qed
  have short': "server (page + 1 + k) = Usa_body (Some a)"
    using Suc.prems(3) by simp
  have "psc_total + length c + 100 * k < 2000" using Suc.prems(2) c by simp
  from Suc.IH[OF full' this short' Suc.prems(4)]
  have "length (usa_fetch_loop server (all_awards @ c) (page + 1) (psc_total + length c))
         = length (all_awards @ c) + 100 * k + length a" .
  then show ?case using step c by simp
qed

text \<open>
  Claim C8. Both paginated loops end for every server (they are total functions). When
  every request returns a full page, the EIA loop ends with exactly 100,000 accumulated
  records (20 pages of 5000), and the USASpending loop ends with exactly 2,000 contracts
  for each PSC code (20 pages of 100), 4,000 over the two codes. When the first pages
  are full and a page then returns fewer records than the page size, the loop ends with
  that page.
\<close>

theorem pagination_stops:
  "((\<forall>offset. \<exists>b. server offset = Eia_batch (b :: 'a list) \<and> length b = 5000) \<longrightarrow>
      (\<exists>d. fetch_via_api server = Api_data d \<and> length d = 100000))
   \<and> ((\<forall>psc_code page. \<exists>a. userver psc_code page = Usa_body (Some a) \<and> length a = 100) \<longrightarrow>
      (\<forall>psc_code all_awards.
          length (usa_fetch_loop (userver psc_code) all_awards 1 0) = length all_awards + 2000)
      \<and> length (usa_fetch userver) = 4000)
   \<and> ((\<forall>i < k. \<exists>c. server' (5000 * i) = Eia_batch c \<and> length c = 5000) \<and> k < 20 \<and>
       server' (5000 * k) = Eia_batch (b' :: 'a list) \<and> length b' < 5000 \<longrightarrow>
      (\<exists>d. fetch_via_api server' = Api_data d \<and> length d = 5000 * k + length b'))
   \<and> ((\<forall>i < j. \<exists>c. pserver (1 + i) = Usa_body (Some c) \<and> length c = 100) \<and> j < 20 \<and>
       pserver (1 + j) = Usa_body (Some a') \<and> length a' < 100 \<longrightarrow>
      length (usa_fetch_loop pserver awards 1 0) = length awards + 100 * j + length a')"
proof (intro conjI impI allI)
  assume "\<forall>offset. \<exists>b. server offset = Eia_batch b \<and> length b = 5000"
  then have full: "\<And>off. \<exists>b. server off = Eia_batch b \<and> length b = 5000" by blast
  have "length ([] :: 'a list) + 5000 * Suc 19 = 100000" by simp
  from eia_full_pages[of server "[]" 19 0, OF full this]
  show "\<exists>d. fetch_via_api server = Api_data d \<and> length d = 100000"
    by (simp add: fetch_via_api_def)
next
  fix psc_code and all_awards :: "'b list"
  assume "\<forall>psc_code page. \<exists>a. userver psc_code page = Usa_body (Some a) \<and> length a = 100"
  then have full: "\<And>page. \<exists>a. userver psc_code page = Usa_body (Some a) \<and> length a = 100" by blast
  have "(0::nat) + 100 * 20 = 2000" by simp
  from usa_full_pages[of "userver psc_code" 0 20 all_awards 1, OF full this]
  show "length (usa_fetch_loop (userver psc_code) all_awards 1 0) = length all_awards + 2000"
    by simp
next
  assume "\<forall>psc_code page. \<exists>a. userver psc_code page = Usa_body (Some a) \<and> length a = 100"
  then show "length (usa_fetch userver) = 4000"
    using usa_fetch_full[of userver] by blast
next
  assume h: "(\<forall>i < k. \<exists>c. server' (5000 * i) = Eia_batch c \<and> length c = 5000) \<and> k < 20 \<and>
       server' (5000 * k) = Eia_batch b' \<and> length b' < 5000"
  from h have s: "server' (0 + 5000 * k) = Eia_batch b'" "length b' < 5000" by simp_all
  have f: "\<And>i. i < k \<Longrightarrow> \<exists>c. server' (0 + 5000 * i) = Eia_batch c \<and> length c = 5000"
    using h by simp
  have l: "length ([] :: 'a list) + 5000 * k < 100000" using h by simp
  from eia_full_then_short[where server="server'" and offset=0 and k=k and b="b'" and all_data="[]", OF s f l]
  show "\<exists>d. fetch_via_api server' = Api_data d \<and> length d = 5000 * k + length b'"
    by (simp add: fetch_via_api_def)
next
  assume h: "(\<forall>i < j. \<exists>c. pserver (1 + i) = Usa_body (Some c) \<and> length c = 100) \<and> j < 20 \<and>
       pserver (1 + j) = Usa_body (Some a') \<and> length a' < 100"
  show "length (usa_fetch_loop pserver awards 1 0) = length awards + 100 * j + length a'"
    by (rule usa_full_then_short) (use h in auto)
qed

theorem pagination_stops_witness:
  "(\<exists>d. fetch_via_api (\<lambda>offset. Eia_batch (replicate 5000 (0::nat))) = Api_data d \<and> length d = 100000)
   \<and> length (usa_fetch (\<lambda>psc_code page. Usa_body (Some (replicate 100 (0::nat))))) = 4000
   \<and> (\<exists>d. fetch_via_api (\<lambda>offset. if offset < 5000 then Eia_batch (replicate 5000 (0::nat))
                                     else Eia_batch [1, 2, 3]) = Api_data d \<and> length d = 5003)
   \<and> length (usa_fetch_loop (\<lambda>page. if page < 2 then Usa_body (Some (replicate 100 (0::nat)))
                                       else Usa_body (Some [1, 2, 3])) [] 1 0) = 103"
proof -
  let ?s = "\<lambda>offset::nat. Eia_batch (replicate 5000 (0::nat))"
  let ?u = "\<lambda>(psc_code::string) (page::nat). Usa_body (Some (replicate 100 (0::nat)))"
  let ?s' = "\<lambda>offset::nat. if offset < 5000 then Eia_batch (replicate 5000 (0::nat)) else Eia_batch [1, 2, 3]"
  let ?p = "\<lambda>page::nat. if page < 2 then Usa_body (Some (replicate 100 (0::nat))) else Usa_body (Some [1, 2, 3])"
  have h1: "\<forall>offset. \<exists>b. ?s offset = Eia_batch b \<and> length b = 5000" by simp
  have h2: "\<forall>psc_code page. \<exists>a. ?u psc_code page = Usa_body (Some a) \<and> length a = 100" by simp
  have h3: "(\<forall>i < 1. \<exists>c. ?s' (5000 * i) = Eia_batch c \<and> length c = 5000) \<and> (1::nat) < 20 \<and>
       ?s' (5000 * 1) = Eia_batch [1, 2, 3] \<and> length [1, 2, 3 :: nat] < 5000" by simp
  have h4: "(\<forall>i < 1. \<exists>c. ?p (1 + i) = Usa_body (Some c) \<and> length c = 100) \<and> (1::nat) < 20 \<and>
       ?p (1 + 1) = Usa_body (Some [1, 2, 3]) \<and> length [1, 2, 3 :: nat] < 100" by simp
  note t = pagination_stops[of ?s ?u 1 ?s' "[1, 2, 3]" 1 ?p "[1, 2, 3]" "[]"]
  from t h1 have c1: "\<exists>d. fetch_via_api ?s = Api_data d \<and> length d = 100000" by blast
  from t h2 have c2: "length (usa_fetch ?u) = 4000" by blast
  from t h3 have c3: "\<exists>d. fetch_via_api ?s' = Api_data d \<and> length d = 5000 * 1 + length [1, 2, 3 :: nat]" by blast
  from t h4 have c4: "length (usa_fetch_loop ?p [] 1 0) = length ([] :: nat list) + 100 * 1 + length [1, 2, 3 :: nat]" by blast
  show ?thesis using c1 c2 c3 c4 by simp
qed

section \<open>Properties of the news store: user annotations\<close>

lemma kept_refl: "kept r r" by (simp add: kept_def)
lemma kept_trans: "kept a b \<Longrightarrow> kept b c \<Longrightarrow> kept a c" by (auto simp: kept_def)

lemma update_existing_kept: "kept r (update_existing_article a r)"
  by (simp add: kept_def update_existing_article_def Let_def)

lemma update_first_all2:
  assumes "\<And>r. R r r" and "\<And>r. R r (f r)"
  shows "list_all2 R rs (update_first p f rs)"
  by (induction rs) (auto simp: assms list_all2_refl)

lemma store_article_kept:
  "list_all2 kept (persistent db) (persistent (store_article db a))"
  by (auto simp: store_article_def modify_first_def add_def query_first_def
      kept_refl update_existing_kept list_all2_refl
      intro!: update_first_all2 split: option.splits)

lemma foldl_store_article_kept:
  "list_all2 kept (persistent db) (persistent (foldl store_article db as))"
proof (induction as arbitrary: db)
  case Nil
  then show ?case by (simp add: list_all2_refl kept_refl)
next
  case (Cons a as)
  have "list_all2 kept (persistent db) (persistent (store_article db a))"
    by (rule store_article_kept)
  moreover have "list_all2 kept (persistent (store_article db a))
      (persistent (foldl store_article (store_article db a) as))"
    by (rule Cons.IH)
  ultimately show ?case
    using list_all2_trans[of kept kept kept] kept_trans by fastforce
qed

lemma committed_foldl_store_article: "committed (foldl store_article db as) = committed db"
  by (induction as arbitrary: db)
     (auto simp: store_article_def modify_first_def add_def split: option.splits)

lemma news_store_table:
  "fst (news_store accepts table articles) = table \<or>
   fst (news_store accepts table articles) =
     persistent (foldl store_article (SessionLocal table) articles)
       @ pending (foldl store_article (SessionLocal table) articles)"
  by (auto simp: news_store_def Let_def commit_def flush_def close_def rollback_def
      committed_foldl_store_article SessionLocal_def
      split: sum.splits if_splits)

lemma find_kept:
  assumes "list_all2 kept xs ys" and "find (\<lambda>r. article_id r = k) xs = Some r"
  shows "\<exists>r'. find (\<lambda>r. article_id r = k) (ys @ zs) = Some r' \<and> kept r r'"
  using assms
  by (induction xs ys rule: list_all2_induct) (auto simp: kept_def split: if_splits)

lemma news_store_kept:
  assumes "find (\<lambda>r. article_id r = k) table = Some r"
  shows "\<exists>r'. find (\<lambda>r. article_id r = k) (fst (news_store accepts table articles)) = Some r'
            \<and> kept r r'"
proof -
  let ?db = "foldl store_article (SessionLocal table) articles"
  have a: "list_all2 kept table (persistent ?db)"
    using foldl_store_article_kept[of "SessionLocal table" articles]
    by (simp add: SessionLocal_def)
  consider "fst (news_store accepts table articles) = table"
    | "fst (news_store accepts table articles) = persistent ?db @ pending ?db"
    using news_store_table by blast
  then show ?thesis
  proof cases
    case 1
    then show ?thesis using assms kept_refl by auto
  next
    case 2
    then show ?thesis using find_kept[OF a assms, of "pending ?db"] by simp
  qed
qed

text \<open>
  Claim C2. Whatever list of articles is stored, and whether or not the store step
  commits, a row that was in the table before is still found under its id afterwards,
  its importance is unchanged if it was not 1, its tags are unchanged if they were not
  empty, and its notes are unchanged. In the branch for an existing row, importance is
  taken from the parsed article only while it is 1, tags only while they are empty, and
  notes never.
\<close>

theorem user_annotations_preserved:
  "find (\<lambda>r. article_id r = k) table = Some r \<longrightarrow>
     (\<exists>r'. find (\<lambda>r. article_id r = k) (fst (news_store accepts table articles)) = Some r' \<and>
        (article_importance r \<noteq> Some 1 \<longrightarrow> article_importance r' = article_importance r) \<and>
        (truthy_str (article_tags r) \<longrightarrow> article_tags r' = article_tags r) \<and>
        article_notes r' = article_notes r)
   \<and> article_importance (update_existing_article article_data existing) =
        (if article_importance existing = Some 1 then article_importance article_data
         else article_importance existing)
   \<and> article_tags (update_existing_article article_data existing) =
        (if truthy_str (article_tags existing) then article_tags existing
         else article_tags article_data)
   \<and> article_notes (update_existing_article article_data existing) = article_notes existing"
proof (intro conjI impI)
  assume "find (\<lambda>r. article_id r = k) table = Some r"
  from news_store_kept[OF this, of accepts articles]
  show "\<exists>r'. find (\<lambda>r. article_id r = k) (fst (news_store accepts table articles)) = Some r' \<and>
        (article_importance r \<noteq> Some 1 \<longrightarrow> article_importance r' = article_importance r) \<and>
        (truthy_str (article_tags r) \<longrightarrow> article_tags r' = article_tags r) \<and>
        article_notes r' = article_notes r"
    by (auto simp: kept_def)
qed (simp_all add: update_existing_article_def Let_def)

theorem user_annotations_preserved_witness:
  "\<exists>r'. find (\<lambda>r. article_id r = ''9e107d9d372bb6826bd81d3542a419d6'')
            (fst (news_store news_articles_ok [rated_article] [parsed_article])) = Some r' \<and>
        article_importance r' = Some 5 \<and>
        article_tags r' = Some ''strategic,capacity'' \<and>
        article_notes r' = Some ''call the carrier''"
proof -
  have h: "find (\<lambda>r. article_id r = ''9e107d9d372bb6826bd81d3542a419d6'') [rated_article]
             = Some rated_article"
    by (simp add: rated_article_def)
  have i: "article_importance rated_article \<noteq> Some 1"
    and t: "truthy_str (article_tags rated_article)"
    by (simp_all add: rated_article_def truthy_str_def)
  show ?thesis
    using user_annotations_preserved
            [of "''9e107d9d372bb6826bd81d3542a419d6''" "[rated_article]" rated_article
                news_articles_ok "[parsed_article]"] h i t
    by (auto simp: rated_article_def)
qed

section \<open>Properties of the Cass and ATA stores: placeholders\<close>

lemma cass_store_metric_skips:
  "truthy_str (cass_note metric_data) \<Longrightarrow> cass_store_metric db metric_data = db"
  by (simp add: cass_store_metric_def)

lemma ata_store_metric_skips:
  "truthy_str (ata_note metric_data) \<Longrightarrow> ata_store_metric db metric_data = db"
  by (simp add: ata_store_metric_def)

lemma foldl_cass_filter:
  "foldl cass_store_metric db metrics =
   foldl cass_store_metric db (filter (\<lambda>m. \<not> truthy_str (cass_note m)) metrics)"
  by (induction metrics arbitrary: db) (simp_all add: cass_store_metric_skips)

lemma foldl_ata_filter:
  "foldl ata_store_metric db metrics =
   foldl ata_store_metric db (filter (\<lambda>m. \<not> truthy_str (ata_note m)) metrics)"
  by (induction metrics arbitrary: db) (simp_all add: ata_store_metric_skips)

lemma cass_store_filter:
  "cass_store accepts table metrics =
   cass_store accepts table (filter (\<lambda>m. \<not> truthy_str (cass_note m)) metrics)"
  unfolding cass_store_def using foldl_cass_filter[of "SessionLocal table" metrics] by simp

lemma ata_store_filter:
  "ata_store accepts table metrics =
   ata_store accepts table (filter (\<lambda>m. \<not> truthy_str (ata_note m)) metrics)"
  unfolding ata_store_def using foldl_ata_filter[of "SessionLocal table" metrics] by simp

lemma cass_store_empty:
  "accepts table \<Longrightarrow> cass_store accepts table [] = (table, None)"
  by (simp add: cass_store_def SessionLocal_def commit_def flush_def close_def)

lemma ata_store_empty:
  "accepts table \<Longrightarrow> ata_store accepts table [] = (table, None)"
  by (simp add: ata_store_def SessionLocal_def commit_def flush_def close_def)

text \<open>
  Claim C6. A record with a non-empty \<open>_note\<close> is skipped by the store loops of the Cass
  and ATA scrapers: storing a list gives the same result (table and exception, if any)
  as storing the list without its placeholders, and storing placeholders only leaves
  the table as it is and raises nothing.
\<close>

theorem placeholders_are_filtered:
  "cass_store accepts table metrics =
     cass_store accepts table (filter (\<lambda>m. \<not> truthy_str (cass_note m)) metrics)
   \<and> ata_store accepts table ata_metrics =
     ata_store accepts table (filter (\<lambda>m. \<not> truthy_str (ata_note m)) ata_metrics)
   \<and> (macro_metrics_ok table \<and> (\<forall>m \<in> set metrics. truthy_str (cass_note m)) \<longrightarrow>
        cass_store macro_metrics_ok table metrics = (table, None))
   \<and> (macro_metrics_ok table \<and> (\<forall>m \<in> set ata_metrics. truthy_str (ata_note m)) \<longrightarrow>
        ata_store macro_metrics_ok table ata_metrics = (table, None))"
proof (intro conjI impI)
  show "cass_store accepts table metrics =
     cass_store accepts table (filter (\<lambda>m. \<not> truthy_str (cass_note m)) metrics)"
    by (rule cass_store_filter)
  show "ata_store accepts table ata_metrics =
     ata_store accepts table (filter (\<lambda>m. \<not> truthy_str (ata_note m)) ata_metrics)"
    by (rule ata_store_filter)
next
  assume h: "macro_metrics_ok table \<and> (\<forall>m \<in> set metrics. truthy_str (cass_note m))"
  then have "filter (\<lambda>m. \<not> truthy_str (cass_note m)) metrics = []" by (simp add: filter_empty_conv)
  then have "cass_store macro_metrics_ok table metrics = cass_store macro_metrics_ok table []"
    using cass_store_filter[of macro_metrics_ok table metrics] by simp
  then show "cass_store macro_metrics_ok table metrics = (table, None)"
    using h cass_store_empty by simp
next
  assume h: "macro_metrics_ok table \<and> (\<forall>m \<in> set ata_metrics. truthy_str (ata_note m))"
  then have "filter (\<lambda>m. \<not> truthy_str (ata_note m)) ata_metrics = []" by (simp add: filter_empty_conv)
  then have "ata_store macro_metrics_ok table ata_metrics = ata_store macro_metrics_ok table []"
    using ata_store_filter[of macro_metrics_ok table ata_metrics] by simp
  then show "ata_store macro_metrics_ok table ata_metrics = (table, None)"
    using h ata_store_empty by simp
qed

theorem placeholders_are_filtered_witness:
  "cass_store macro_metrics_ok [] [cass_placeholder] = ([], None)
   \<and> ata_store macro_metrics_ok [] [ata_placeholder] = ([], None)"
proof -
  have h1: "macro_metrics_ok [] \<and> (\<forall>m \<in> set [cass_placeholder]. truthy_str (cass_note m))"
    by (simp add: macro_metrics_ok_def cass_placeholder_def truthy_str_def)
  have h2: "macro_metrics_ok [] \<and> (\<forall>m \<in> set [ata_placeholder]. truthy_str (ata_note m))"
    by (simp add: macro_metrics_ok_def ata_placeholder_def truthy_str_def)
  show ?thesis
    using placeholders_are_filtered[of macro_metrics_ok "[]" "[cass_placeholder]" "[ata_placeholder]"]
      h1 h2 by blast
qed

section \<open>Properties of the tagger and the scorer\<close>

lemma str_contains_iff: "str_contains kw t \<longleftrightarrow> (\<exists>p s. t = p @ kw @ s)"
proof (induction t)
  case Nil
  then show ?case by auto
next
  case (Cons c cs)
  have "sublist kw (c # cs) \<longleftrightarrow> prefix kw (c # cs) \<or> sublist kw cs"
    by (rule sublist_Cons_right)
  moreover have "str_contains kw cs \<longleftrightarrow> sublist kw cs"
    using Cons.IH by (simp add: sublist_def)
  ultimately show ?case
    by (simp add: sublist_def)
qed

lemma ascii_lower_append: "ascii_lower (a @ b) = ascii_lower a @ ascii_lower b"
  by (simp add: ascii_lower_def)

lemma str_contains_appendI:
  assumes "str_contains kw a"
  shows "str_contains kw (a @ b)"
proof -
  from assms obtain p s where "a = p @ kw @ s"
    unfolding str_contains_iff by blast
  then have "a @ b = p @ kw @ (s @ b)" by simp
  then show ?thesis unfolding str_contains_iff by blast
qed

lemma contains_capacity_shortage:
  assumes "str_contains ''capacity shortage'' t"
  shows "str_contains ''capacity'' t" and "str_contains ''shortage'' t"
proof -
  from assms obtain p s where t: "t = p @ ''capacity shortage'' @ s"
    unfolding str_contains_iff by blast
  have "t = p @ ''capacity'' @ ('' shortage'' @ s)" using t by simp
  then show "str_contains ''capacity'' t" unfolding str_contains_iff by blast
  have "t = (p @ ''capacity '') @ ''shortage'' @ s" using t by simp
  then show "str_contains ''shortage'' t" unfolding str_contains_iff by blast
qed

lemma lowers_ascii_ascii_lower: "lowers_ascii ascii_lower"
  by (simp add: lowers_ascii_def)

lemma lowers_ascii_capacity:
  assumes "lowers_ascii str_lower" and "str_contains ''capacity'' (ascii_lower t)"
  shows "str_contains ''capacity'' (str_lower t)"
proof -
  have "\<forall>c \<in> set ''capacity''. (of_char c :: nat) < 128" by simp
  then show ?thesis using assms unfolding lowers_ascii_def by blast
qed

lemma lowers_ascii_shortage:
  assumes "lowers_ascii str_lower" and "str_contains ''shortage'' (ascii_lower t)"
  shows "str_contains ''shortage'' (str_lower t)"
proof -
  have "\<forall>c \<in> set ''shortage''. (of_char c :: nat) < 128" by simp
  then show ?thesis using assms unfolding lowers_ascii_def by blast
qed

lemma auto_tag_table:
  "auto_tag str_lower title summary full_content =
     map fst (filter (\<lambda>(tag, keywords). \<exists>keyword \<in> set keywords. str_contains keyword
                 (str_lower (title @ '' '' @ or_empty summary @ '' '' @ or_empty full_content)))
       [(''capacity'', [''capacity'', ''tight'', ''shortage'', ''availability'', ''surplus'']),
        (''rates'', [''rate'', ''pricing'', ''cost'', ''price'', ''tariff'']),
        (''diesel'', [''diesel'', ''fuel'', ''energy'', ''gas'']),
        (''ltl'', [''less-than-truckload'', ''ltl'', ''less than truckload'']),
        (''ftl'', [''full-truckload'', ''ftl'', ''full truckload'', ''truckload'']),
        (''contracts'', [''contract'', ''bid'', ''rfp'', ''agreement'']),
        (''economy'', [''economy'', ''gdp'', ''recession'', ''demand'', ''growth'']),
        (''regulation'', [''fmcsa'', ''regulation'', ''compliance'', ''dot'', ''law'']),
        (''technology'', [''technology'', ''digital'', ''automation'', ''software'']),
        (''labor'', [''driver'', ''labor'', ''wage'', ''employment'', ''turnover'']),
        (''merger'', [''merger'', ''acquisition'', ''bought'', ''consolidation'']),
        (''bankruptcy'', [''bankruptcy'', ''closure'', ''shutdown'', ''failed''])])"
  unfolding auto_tag_def Let_def TAG_KEYWORDS_def list_ex_iff ..

lemma auto_tag_capacity:
  assumes l: "lowers_ascii str_lower"
    and c: "str_contains ''capacity shortage'' (ascii_lower title)"
  shows "''capacity'' \<in> set (auto_tag str_lower title summary full_content)"
proof -
  let ?rest = "'' '' @ or_empty summary @ '' '' @ or_empty full_content"
  have "str_contains ''capacity'' (ascii_lower title @ ascii_lower ?rest)"
    using contains_capacity_shortage(1)[OF c] by (rule str_contains_appendI)
  then have "str_contains ''capacity'' (ascii_lower (title @ ?rest))"
    by (simp only: ascii_lower_append)
  then have "str_contains ''capacity'' (str_lower (title @ ?rest))"
    using l by (rule lowers_ascii_capacity[rotated])
  then show ?thesis
    by (simp add: auto_tag_def TAG_KEYWORDS_def Let_def)
qed

lemma importance_formula:
  "auto_rate_importance str_lower title summary tags =
     min 5 (1 + of_bool (\<exists>tag \<in> {''capacity'', ''rates'', ''bankruptcy'', ''merger''}. tag \<in> set tags)
              + of_bool (\<exists>keyword \<in> {''breaking'', ''major'', ''crisis'', ''shortage'', ''spike'',
                                         ''record'', ''unprecedented'', ''significant'', ''urgent''}.
                           str_contains keyword (str_lower title))
              + of_bool (3 \<le> length tags))"
  unfolding auto_rate_importance_def Let_def list_ex_iff priority_tags_def IMPORTANT_KEYWORDS_def
  by (simp add: of_bool_def)

lemma importance_capacity:
  assumes l: "lowers_ascii str_lower"
    and c: "str_contains ''capacity shortage'' (ascii_lower title)"
    and t: "''capacity'' \<in> set tags"
  shows "3 \<le> auto_rate_importance str_lower title summary tags"
proof -
  have "str_contains ''shortage'' (str_lower title)"
    using l contains_capacity_shortage(2)[OF c] by (rule lowers_ascii_shortage)
  then show ?thesis
    using t unfolding importance_formula by (auto simp: of_bool_def)
qed

lemma importance_neutral:
  assumes "\<not> (\<exists>keyword \<in> {''breaking'', ''major'', ''crisis'', ''shortage'', ''spike'',
                             ''record'', ''unprecedented'', ''significant'', ''urgent''}.
                str_contains keyword (str_lower title))"
  shows "auto_rate_importance str_lower title summary [] = 1"
  using assms unfolding importance_formula by simp

text \<open>
  Claim C9. Whatever \<open>str.lower()\<close> does, the importance score is 1, plus 1 when one of
  the tags capacity, rates, bankruptcy, merger is among the tags, plus 1 when the
  lowercased title contains one of the nine important keywords, plus 1 when three or
  more tags were assigned, capped at 5; and the tagger returns, in the order of the
  keyword table, the tags of which a keyword occurs in the lowercased text. An entry
  whose title contains "capacity shortage", in any mix of upper and lower case, is tagged
  \<open>capacity\<close> and scores at least 3, while a neutral entry (one that receives no tag and
  whose lowercased title holds no important keyword) scores 1: the difference is at
  least 1.
\<close>

theorem importance_scorer_and_capacity_scenario:
  "auto_rate_importance str_lower title summary tags =
     min 5 (1 + of_bool (\<exists>tag \<in> {''capacity'', ''rates'', ''bankruptcy'', ''merger''}. tag \<in> set tags)
              + of_bool (\<exists>keyword \<in> {''breaking'', ''major'', ''crisis'', ''shortage'', ''spike'',
                                         ''record'', ''unprecedented'', ''significant'', ''urgent''}.
                           str_contains keyword (str_lower title))
              + of_bool (3 \<le> length tags))
   \<and> auto_tag str_lower title summary full_content =
       map fst (filter (\<lambda>(tag, keywords). \<exists>keyword \<in> set keywords. str_contains keyword
                   (str_lower (title @ '' '' @ or_empty summary @ '' '' @ or_empty full_content)))
         [(''capacity'', [''capacity'', ''tight'', ''shortage'', ''availability'', ''surplus'']),
          (''rates'', [''rate'', ''pricing'', ''cost'', ''price'', ''tariff'']),
          (''diesel'', [''diesel'', ''fuel'', ''energy'', ''gas'']),
          (''ltl'', [''less-than-truckload'', ''ltl'', ''less than truckload'']),
          (''ftl'', [''full-truckload'', ''ftl'', ''full truckload'', ''truckload'']),
          (''contracts'', [''contract'', ''bid'', ''rfp'', ''agreement'']),
          (''economy'', [''economy'', ''gdp'', ''recession'', ''demand'', ''growth'']),
          (''regulation'', [''fmcsa'', ''regulation'', ''compliance'', ''dot'', ''law'']),
          (''technology'', [''technology'', ''digital'', ''automation'', ''software'']),
          (''labor'', [''driver'', ''labor'', ''wage'', ''employment'', ''turnover'']),
          (''merger'', [''merger'', ''acquisition'', ''bought'', ''consolidation'']),
          (''bankruptcy'', [''bankruptcy'', ''closure'', ''shutdown'', ''failed''])])
   \<and> (lowers_ascii str_lower \<and> str_contains ''capacity shortage'' (ascii_lower title) \<longrightarrow>
        ''capacity'' \<in> set (auto_tag str_lower title summary full_content) \<and>
        3 \<le> auto_rate_importance str_lower title summary
               (auto_tag str_lower title summary full_content) \<and>
        (auto_tag str_lower title0 summary0 full_content0 = [] \<and>
         \<not> (\<exists>keyword \<in> {''breaking'', ''major'', ''crisis'', ''shortage'', ''spike'',
                            ''record'', ''unprecedented'', ''significant'', ''urgent''}.
               str_contains keyword (str_lower title0)) \<longrightarrow>
           auto_rate_importance str_lower title0 summary0
             (auto_tag str_lower title0 summary0 full_content0) = 1 \<and>
           auto_rate_importance str_lower title0 summary0
             (auto_tag str_lower title0 summary0 full_content0) + 1
             \<le> auto_rate_importance str_lower title summary
                  (auto_tag str_lower title summary full_content)))"
proof -
  let ?keyword_in = "\<lambda>t. \<exists>keyword \<in> {''breaking'', ''major'', ''crisis'', ''shortage'', ''spike'',
                            ''record'', ''unprecedented'', ''significant'', ''urgent''}.
               str_contains keyword (str_lower t)"
  have scenario: "''capacity'' \<in> set (auto_tag str_lower title summary full_content) \<and>
        3 \<le> auto_rate_importance str_lower title summary
               (auto_tag str_lower title summary full_content) \<and>
        (auto_tag str_lower title0 summary0 full_content0 = [] \<and> \<not> ?keyword_in title0 \<longrightarrow>
           auto_rate_importance str_lower title0 summary0
             (auto_tag str_lower title0 summary0 full_content0) = 1 \<and>
           auto_rate_importance str_lower title0 summary0
             (auto_tag str_lower title0 summary0 full_content0) + 1
             \<le> auto_rate_importance str_lower title summary
                  (auto_tag str_lower title summary full_content))"
    if h: "lowers_ascii str_lower \<and> str_contains ''capacity shortage'' (ascii_lower title)"
  proof -
    from h have l: "lowers_ascii str_lower"
      and c: "str_contains ''capacity shortage'' (ascii_lower title)" by simp_all
    have tag: "''capacity'' \<in> set (auto_tag str_lower title summary full_content)"
      using l c by (rule auto_tag_capacity)
    have score: "3 \<le> auto_rate_importance str_lower title summary
               (auto_tag str_lower title summary full_content)"
      using l c tag by (rule importance_capacity)
    have neutral: "auto_rate_importance str_lower title0 summary0
             (auto_tag str_lower title0 summary0 full_content0) = 1"
      if "auto_tag str_lower title0 summary0 full_content0 = [] \<and> \<not> ?keyword_in title0"
      using that importance_neutral[of str_lower title0 summary0] by simp
    show ?thesis using tag score neutral by auto
  qed
  show ?thesis
    using importance_formula[of str_lower title summary tags]
      auto_tag_table[of str_lower title summary full_content] scenario
    by blast
qed

theorem importance_scorer_and_capacity_scenario_witness:
  "''capacity'' \<in> set (auto_tag ascii_lower ''Capacity Shortage hits trucking''
                          (Some ''Carriers warn'') None)
   \<and> 3 \<le> auto_rate_importance ascii_lower ''Capacity Shortage hits trucking'' (Some ''Carriers warn'')
          (auto_tag ascii_lower ''Capacity Shortage hits trucking'' (Some ''Carriers warn'') None)
   \<and> auto_rate_importance ascii_lower ''Port opens new terminal'' (Some ''A new pier'')
        (auto_tag ascii_lower ''Port opens new terminal'' (Some ''A new pier'') None) = 1
   \<and> auto_rate_importance ascii_lower ''Port opens new terminal'' (Some ''A new pier'')
        (auto_tag ascii_lower ''Port opens new terminal'' (Some ''A new pier'') None) + 1
      \<le> auto_rate_importance ascii_lower ''Capacity Shortage hits trucking'' (Some ''Carriers warn'')
          (auto_tag ascii_lower ''Capacity Shortage hits trucking'' (Some ''Carriers warn'') None)"
proof -
  have l: "lowers_ascii ascii_lower"
    by (simp add: lowers_ascii_def)
  have c: "str_contains ''capacity shortage'' (ascii_lower ''Capacity Shortage hits trucking'')"
    by code_simp
  have n1: "auto_tag ascii_lower ''Port opens new terminal'' (Some ''A new pier'') None = []"
    by code_simp
  have n2: "\<not> (\<exists>keyword \<in> {''breaking'', ''major'', ''crisis'', ''shortage'', ''spike'',
                            ''record'', ''unprecedented'', ''significant'', ''urgent''}.
              str_contains keyword (ascii_lower ''Port opens new terminal''))"
    by code_simp
  show ?thesis
    using importance_scorer_and_capacity_scenario
            [of ascii_lower "''Capacity Shortage hits trucking''" "Some ''Carriers warn''" "[]" None
                "''Port opens new terminal''" "Some ''A new pier''" None]
          l c n1 n2
    by blast
qed

text \<open>
  Claim C10. For every title, summary and tag list, and whatever \<open>str.lower()\<close> does, the
  scorer returns a value from 1 to 4: only three bonuses of 1 can be added to the
  starting score of 1, so the cap of 5 never binds and no automatically scored article
  receives importance 5.
\<close>

theorem importance_between_1_and_4:
  "1 \<le> auto_rate_importance str_lower title summary tags
   \<and> auto_rate_importance str_lower title summary tags \<le> 4
   \<and> auto_rate_importance str_lower title summary tags \<noteq> 5
   \<and> auto_rate_importance str_lower title summary tags =
       1 + of_bool (\<exists>tag \<in> set priority_tags. tag \<in> set tags)
         + of_bool (\<exists>keyword \<in> set IMPORTANT_KEYWORDS. str_contains keyword (str_lower title))
         + of_bool (3 \<le> length tags)"
proof -
  let ?b1 = "of_bool (\<exists>tag \<in> set priority_tags. tag \<in> set tags) :: int"
  let ?b2 = "of_bool (\<exists>keyword \<in> set IMPORTANT_KEYWORDS. str_contains keyword (str_lower title)) :: int"
  let ?b3 = "of_bool (3 \<le> length tags) :: int"
  have b: "0 \<le> ?b1" "?b1 \<le> 1" "0 \<le> ?b2" "?b2 \<le> 1" "0 \<le> ?b3" "?b3 \<le> 1"
    by (simp_all add: of_bool_def)
  have r: "auto_rate_importance str_lower title summary tags = min 5 (1 + ?b1 + ?b2 + ?b3)"
    unfolding auto_rate_importance_def Let_def list_ex_iff by (simp add: of_bool_def)
  have "1 + ?b1 + ?b2 + ?b3 \<le> 4" using b by linarith
  then have e: "auto_rate_importance str_lower title summary tags = 1 + ?b1 + ?b2 + ?b3"
    using r by simp
  show ?thesis
    using e b by linarith
qed

section \<open>Properties of the HTTP wrapper\<close>







section \<open>Properties of the retry loop and the orchestrator\<close>

















section \<open>Properties of the stores: rollback\<close>

lemma committed_modify_first [simp]: "committed (modify_first p f db) = committed db"
  by (simp add: modify_first_def)

lemma committed_add [simp]: "committed (add r db) = committed db"
  by (simp add: add_def)



lemma close_rollback [simp]: "close (rollback db) = committed db"
  by (simp add: close_def rollback_def)

lemma close2_rollback2 [simp]: "close2 (rollback2 db) = (committed (fst db), committed (snd db))"
  by (simp add: close2_def rollback2_def)

lemma committed_store_article [simp]: "committed (store_article db a) = committed db"
  by (simp add: store_article_def split: option.splits)

lemma committed_foldl_store [simp]: "committed (foldl store_article db as) = committed db"
  by (induction as arbitrary: db) simp_all

lemma committed_cass_store_metric [simp]: "committed (cass_store_metric db m) = committed db"
  by (simp add: cass_store_metric_def split: option.splits)

lemma committed_foldl_cass [simp]: "committed (foldl cass_store_metric db ms) = committed db"
  by (induction ms arbitrary: db) simp_all

lemma committed_ata_store_metric [simp]: "committed (ata_store_metric db m) = committed db"
  by (simp add: ata_store_metric_def split: option.splits)

lemma committed_foldl_ata [simp]: "committed (foldl ata_store_metric db ms) = committed db"
  by (induction ms arbitrary: db) simp_all

lemma committed_eia_store_price [simp]:
  "committed (fst (eia_store_price db p)) = committed (fst db)"
  "committed (snd (eia_store_price db p)) = committed (snd db)"
  by (simp_all add: eia_store_price_def Let_def split: option.splits)

lemma committed_foldl_eia [simp]:
  "committed (fst (foldl eia_store_price db ps)) = committed (fst db)"
  "committed (snd (foldl eia_store_price db ps)) = committed (snd db)"
  by (induction ps arbitrary: db) simp_all











lemma committed_bts_store_lane [simp]:
  "committed (fst (bts_store_lane st x)) = committed (fst st)"
  by (cases st) (simp add: bts_store_lane_def Let_def split: option.splits)

lemma committed_foldl_bts [simp]:
  "committed (fst (foldl bts_store_lane st xs)) = committed (fst st)"
  by (induction xs arbitrary: st) simp_all









end
